theory Spec2Isabelle
  imports Main "HOL-Library.AList" "HOL-Library.FSet"
begin

section \<open>The session orchestrator of \<^verbatim>\<open>server.py\<close>\<close>

text \<open>
  The server keeps three module-level registries (\<^verbatim>\<open>waiting\<close>, \<^verbatim>\<open>games\<close>,
  \<^verbatim>\<open>replay_requests\<close>) and talks to its clients through a python-socketio
  \<^verbatim>\<open>AsyncServer\<close>. Every handler is a coroutine that runs to completion on one event
  loop, so a handler is modelled as a function from the state before the event to the
  state after it. An exception that leaves a handler is a value: the outcome
  \<open>Raised e s\<close> carries the exception and the state at the moment it was raised,
  because whatever the handler mutated before the raise stays mutated.
\<close>

subsection \<open>Data\<close>

type_synonym sid = string
type_synonym room = string

text \<open>A socketio session and a message payload are Python dicts from strings to strings.\<close>

type_synonym session = "string \<rightharpoonup> string"
type_synonym payload = "(string \<times> string) list"

datatype py_error = KeyError | ValueError

text \<open>
  \<open>Emit e d r to\<close> is one call \<^verbatim>\<open>sio.emit(e, d, room=r)\<close>: the event name, the payload
  (\<open>[]\<close> when the call passes none), the room it is addressed to, and the handles that
  were members of that room when the call was made.
\<close>

datatype message = Emit string payload room "sid set"

text \<open>
  The chess library is an external collaborator. The handlers use seven of its
  operations, which are parameters of the model: \<^verbatim>\<open>chess.Board()\<close>,
  \<^verbatim>\<open>chess.Move.from_uci\<close> (\<open>None\<close> where it raises \<^verbatim>\<open>ValueError\<close>),
  \<^verbatim>\<open>move in board.legal_moves\<close>, \<^verbatim>\<open>board.push\<close>, \<^verbatim>\<open>board.is_game_over\<close>,
  \<^verbatim>\<open>board.result\<close> and \<^verbatim>\<open>board.fen\<close>.
\<close>

record ('b, 'm) rules =
  new_board :: 'b
  from_uci :: "string \<Rightarrow> 'm option"
  legal_moves :: "'b \<Rightarrow> 'm \<Rightarrow> bool"
  push :: "'b \<Rightarrow> 'm \<Rightarrow> 'b"
  is_game_over :: "'b \<Rightarrow> bool"
  result :: "'b \<Rightarrow> string"
  fen :: "'b \<Rightarrow> string"

text \<open>
  The state. \<open>games\<close> is an association list because \<^verbatim>\<open>disconnect\<close> iterates over the
  dict in insertion order and stops at the first match. \<open>sessions\<close> and \<open>members\<close> are
  the part of the socketio server the handlers read and write: the session dict of every
  connected handle (\<open>None\<close> for a handle that is not connected, for which
  \<^verbatim>\<open>get_session\<close> and \<^verbatim>\<open>save_session\<close> raise \<^verbatim>\<open>KeyError\<close>) and the members of every
  room. \<open>outbox\<close> is the log of the messages emitted so far, oldest first.
\<close>

record 'b server =
  waiting :: "sid list"
  games :: "(room \<times> 'b) list"
  replay_requests :: "room \<rightharpoonup> sid fset"
  sessions :: "sid \<rightharpoonup> session"
  members :: "room \<Rightarrow> sid set"
  outbox :: "message list"

datatype 's outcome = Done 's | Raised py_error 's

fun state_of :: "'s outcome \<Rightarrow> 's" where
  "state_of (Done s) = s"
| "state_of (Raised e s) = s"

fun raised :: "'s outcome \<Rightarrow> py_error option" where
  "raised (Done s) = None"
| "raised (Raised e s) = Some e"

definition init :: "'b server" where
  "init = \<lparr>waiting = [], games = [], replay_requests = Map.empty,
           sessions = Map.empty, members = (\<lambda>r. {}), outbox = []\<rparr>"

subsection \<open>The channel\<close>

text \<open>
  What python-socketio does around the handlers. A new connection gets an empty session
  and a room of its own, named by its handle; \<^verbatim>\<open>emit\<close> with \<^verbatim>\<open>to=\<close> addresses that
  room (\<^verbatim>\<open>to\<close> takes precedence over \<^verbatim>\<open>room\<close> when a call gives both). When a
  connection ends its socket is closed, so that its session can no longer be read, and
  the server runs the \<^verbatim>\<open>disconnect\<close> handler; when the handler has returned, the
  server removes the handle from every room. That last step is skipped when the handler
  raises.
\<close>

definition channel_connect :: "'b server \<Rightarrow> sid \<Rightarrow> 'b server" where
  "channel_connect s sid =
     s\<lparr>sessions := (sessions s)(sid \<mapsto> Map.empty),
       members := (members s)(sid := insert sid (members s sid))\<rparr>"

definition channel_close :: "'b server \<Rightarrow> sid \<Rightarrow> 'b server" where
  "channel_close s sid = s\<lparr>sessions := (sessions s)(sid := None)\<rparr>"

definition channel_disconnect :: "'b server \<Rightarrow> sid \<Rightarrow> 'b server" where
  "channel_disconnect s sid =
     (channel_close s sid)\<lparr>members := (\<lambda>r. members s r - {sid})\<rparr>"

definition emit :: "string \<Rightarrow> payload \<Rightarrow> room \<Rightarrow> 'b server \<Rightarrow> 'b server" where
  "emit e d r s = s\<lparr>outbox := outbox s @ [Emit e d r (members s r)]\<rparr>"

definition enter_room :: "sid \<Rightarrow> room \<Rightarrow> 'b server \<Rightarrow> 'b server" where
  "enter_room sid r s = s\<lparr>members := (members s)(r := insert sid (members s r))\<rparr>"

definition leave_room :: "sid \<Rightarrow> room \<Rightarrow> 'b server \<Rightarrow> 'b server" where
  "leave_room sid r s = s\<lparr>members := (members s)(r := members s r - {sid})\<rparr>"

subsection \<open>Room names\<close>

text \<open>\<^verbatim>\<open>f"room_{p1}_{p2}"\<close>, and \<^verbatim>\<open>str.split\<close> with a one-character separator.\<close>

definition room_name :: "sid \<Rightarrow> sid \<Rightarrow> room" where
  "room_name p1 p2 = ''room_'' @ p1 @ ''_'' @ p2"

fun split :: "char \<Rightarrow> string \<Rightarrow> string list" where
  "split c [] = [[]]"
| "split c (x # xs) =
     (if x = c then [] # split c xs
      else (case split c xs of [] \<Rightarrow> [[x]] | p # ps \<Rightarrow> (x # p) # ps))"

subsection \<open>The handlers\<close>

text \<open>
  \<^verbatim>\<open>join(sid, data)\<close>. The handle is appended without any check; with two or more
  handles queued the first two are popped, the game is stored under the room name, both
  sessions are saved, both handles enter the room and each is sent its \<^verbatim>\<open>start\<close>.
\<close>

definition join :: "('b, 'm) rules \<Rightarrow> 'b server \<Rightarrow> sid \<Rightarrow> 'b server outcome" where
  "join R s sid =
     (let s1 = s\<lparr>waiting := waiting s @ [sid]\<rparr> in
      case waiting s1 of
        p1 # p2 # rest \<Rightarrow>
          let room = room_name p1 p2;
              board = new_board R;
              s2 = s1\<lparr>waiting := rest, games := AList.update room board (games s1)\<rparr>
          in (case sessions s2 p1 of
                None \<Rightarrow> Raised KeyError s2
              | Some old1 \<Rightarrow>
                  let s3 = s2\<lparr>sessions := (sessions s2)
                             (p1 \<mapsto> [''room'' \<mapsto> room, ''color'' \<mapsto> ''white''])\<rparr>
                  in (case sessions s3 p2 of
                        None \<Rightarrow> Raised KeyError s3
                      | Some old2 \<Rightarrow>
                          let s4 = s3\<lparr>sessions := (sessions s3)
                                     (p2 \<mapsto> [''room'' \<mapsto> room, ''color'' \<mapsto> ''black''])\<rparr>;
                              s5 = enter_room p1 room s4;
                              s6 = enter_room p2 room s5;
                              s7 = emit ''start''
                                     [(''fen'', fen R board), (''your_color'', ''white'')] p1 s6;
                              s8 = emit ''start''
                                     [(''fen'', fen R board), (''your_color'', ''black'')] p2 s7
                          in Done s8))
      | _ \<Rightarrow> Done s1)"

text \<open>
  \<^verbatim>\<open>move(sid, data)\<close>. The room is read with \<^verbatim>\<open>session["room"]\<close>, which raises when
  the key is absent; the squares with \<^verbatim>\<open>data["from"] + data["to"]\<close>.
\<close>

definition uci_of :: "session \<Rightarrow> string \<Rightarrow> string \<Rightarrow> string" where
  "uci_of data f t = f @ t @ (case data ''promotion'' of None \<Rightarrow> [] | Some p \<Rightarrow> p)"

definition move ::
  "('b, 'm) rules \<Rightarrow> 'b server \<Rightarrow> sid \<Rightarrow> (string \<rightharpoonup> string) \<Rightarrow> 'b server outcome" where
  "move R s sid data =
     (case sessions s sid of
        None \<Rightarrow> Raised KeyError s
      | Some session \<Rightarrow>
          (case session ''room'' of
             None \<Rightarrow> Raised KeyError s
           | Some room \<Rightarrow>
               (case map_of (games s) room of
                  None \<Rightarrow> Done s
                | Some board \<Rightarrow>
                    (case data ''from'' of
                       None \<Rightarrow> Raised KeyError s
                     | Some f \<Rightarrow>
                         (case data ''to'' of
                            None \<Rightarrow> Raised KeyError s
                          | Some t \<Rightarrow>
                              let uci = uci_of data f t in
                              (case from_uci R uci of
                                 None \<Rightarrow> Raised ValueError s
                               | Some mv \<Rightarrow>
                                   if legal_moves R board mv then
                                     let board' = push R board mv;
                                         s1 = s\<lparr>games := AList.update room board' (games s)\<rparr>;
                                         s2 = emit ''move''
                                                [(''uci'', uci), (''fen'', fen R board')] room s1
                                     in if is_game_over R board'
                                        then Done (emit ''game_over''
                                                     [(''result'', result R board')] room s2)
                                        else Done s2
                                   else Done (emit ''invalid'' [(''uci'', uci)] sid s)))))))"

text \<open>
  \<^verbatim>\<open>replay(sid, data)\<close>. The only guard is on the session's room (absent or empty);
  whether a game is stored under that room is not looked at.
\<close>

definition replay :: "('b, 'm) rules \<Rightarrow> 'b server \<Rightarrow> sid \<Rightarrow> 'b server outcome" where
  "replay R s sid =
     (case sessions s sid of
        None \<Rightarrow> Raised KeyError s
      | Some session \<Rightarrow>
          (case session ''room'' of
             None \<Rightarrow> Done s
           | Some room \<Rightarrow>
               if room = [] then Done s
               else
                 let reqs = finsert sid
                       (case replay_requests s room of None \<Rightarrow> {||} | Some q \<Rightarrow> q);
                     s1 = s\<lparr>replay_requests := (replay_requests s)(room \<mapsto> reqs)\<rparr>
                 in if fcard reqs = 2 then
                      let new = new_board R;
                          s2 = s1\<lparr>games := AList.update room new (games s1)\<rparr>;
                          s3 = emit ''replay_start'' [(''fen'', fen R new)] room s2
                      in Done (s3\<lparr>replay_requests := (replay_requests s3)(room := None)\<rparr>)
                    else Done s1))"

text \<open>
  \<^verbatim>\<open>quit(sid, data)\<close>. The opponent is read off the room name. \<^verbatim>\<open>opp_session\<close> is
  the stored dict itself, so deleting its key changes the stored session. The quitting
  handle leaves the room; the \<^verbatim>\<open>room\<close> key of its own session is not touched.
\<close>

definition quit :: "'b server \<Rightarrow> sid \<Rightarrow> 'b server outcome" where
  "quit s sid =
     (case sessions s sid of
        None \<Rightarrow> Raised KeyError s
      | Some session \<Rightarrow>
          (case session ''room'' of
             None \<Rightarrow> Done s
           | Some room \<Rightarrow>
               if room = [] then Done s
               else
                 let parts = split CHR ''_'' room in
                 if length parts < 3 then Done s
                 else
                   let s1 = parts ! 1;
                       s2 = parts ! 2;
                       opponent = (if sid = s1 then s2 else s1);
                       t1 = emit ''opponent_left'' [] room s;
                       t2 = t1\<lparr>games := AList.delete room (games t1)\<rparr>;
                       t3 = t2\<lparr>replay_requests := (replay_requests t2)(room := None)\<rparr>
                   in (case sessions t3 opponent of
                         None \<Rightarrow> Raised KeyError t3
                       | Some opp_session \<Rightarrow>
                           let t4 = t3\<lparr>sessions := (sessions t3)
                                      (opponent \<mapsto> opp_session(''room'' := None))\<rparr>;
                               t5 = (if opponent \<in> set (waiting t4) then t4
                                     else t4\<lparr>waiting := waiting t4 @ [opponent]\<rparr>)
                           in Done (leave_room sid room t5))))"

text \<open>
  \<^verbatim>\<open>disconnect(sid)\<close>. The first occurrence of the handle leaves the queue. The loop
  runs over a snapshot of the rooms in insertion order; unpacking
  \<^verbatim>\<open>room.split("_")[1:]\<close> into two names raises unless there are exactly two; the first
  room that names the handle is torn down and the loop stops.
\<close>

fun disconnect_loop :: "sid \<Rightarrow> room list \<Rightarrow> 'b server \<Rightarrow> 'b server outcome" where
  "disconnect_loop sid [] s = Done s"
| "disconnect_loop sid (room # rooms) s =
     (case tl (split CHR ''_'' room) of
        [s1, s2] \<Rightarrow>
          if sid = s1 \<or> sid = s2 then
            let t1 = emit ''opponent_left'' [] room s;
                t2 = t1\<lparr>games := AList.delete room (games t1)\<rparr>
            in Done (t2\<lparr>replay_requests := (replay_requests t2)(room := None)\<rparr>)
          else disconnect_loop sid rooms s
      | _ \<Rightarrow> Raised ValueError s)"

definition disconnect :: "'b server \<Rightarrow> sid \<Rightarrow> 'b server outcome" where
  "disconnect s sid =
     (let s1 = (if sid \<in> set (waiting s) then s\<lparr>waiting := remove1 sid (waiting s)\<rparr> else s)
      in disconnect_loop sid (map fst (games s1)) s1)"

subsection \<open>Events\<close>

text \<open>
  One event of a connection and the state it leaves. An exception ends the handler and
  is logged by the server; the state at the raise is the state the next event sees. The
  \<^verbatim>\<open>connect\<close> handler only prints.
\<close>

datatype event =
    Connect sid
  | Join sid
  | Move sid "(string \<times> string) list"
  | Replay sid
  | Quit sid
  | Disconnect sid

fun handle :: "('b, 'm) rules \<Rightarrow> 'b server \<Rightarrow> event \<Rightarrow> 'b server outcome" where
  "handle R s (Connect sid) = Done (channel_connect s sid)"
| "handle R s (Join sid) = join R s sid"
| "handle R s (Move sid d) = move R s sid (map_of d)"
| "handle R s (Replay sid) = replay R s sid"
| "handle R s (Quit sid) = quit s sid"
| "handle R s (Disconnect sid) =
     (case disconnect s sid of
        Done t \<Rightarrow> Done (channel_disconnect t sid)
      | Raised e t \<Rightarrow> Raised e (channel_close t sid))"

definition step :: "('b, 'm) rules \<Rightarrow> 'b server \<Rightarrow> event \<Rightarrow> 'b server" where
  "step R s ev = state_of (handle R s ev)"

definition run :: "('b, 'm) rules \<Rightarrow> 'b server \<Rightarrow> event list \<Rightarrow> 'b server" where
  "run R s evs = foldl (step R) s evs"

subsection \<open>Reading the state\<close>

text \<open>The room and the colour recorded in a handle's session, if any.\<close>

definition room_of :: "'b server \<Rightarrow> sid \<Rightarrow> string option" where
  "room_of s sid = (case sessions s sid of None \<Rightarrow> None | Some d \<Rightarrow> d ''room'')"

definition color_of :: "'b server \<Rightarrow> sid \<Rightarrow> string option" where
  "color_of s sid = (case sessions s sid of None \<Rightarrow> None | Some d \<Rightarrow> d ''color'')"

subsection \<open>A rules engine to run the handlers on\<close>

text \<open>
  An engine that knows one line of play, the fool's mate. A board is the list of moves
  played; the only legal move is the next move of the line; the game is over after the
  fourth, with no legal move left, as after a checkmate.
\<close>

definition fools_mate :: "string list" where
  "fools_mate = [''f2f3'', ''e7e5'', ''g2g4'', ''d8h4'']"

definition line_rules :: "(string list, string) rules" where
  "line_rules =
     \<lparr>new_board = [],
      from_uci = (\<lambda>u. if length u = 4 \<or> length u = 5 then Some u else None),
      legal_moves = (\<lambda>b m. take 1 (drop (length b) fools_mate) = [m]),
      push = (\<lambda>b m. b @ [m]),
      is_game_over = (\<lambda>b. length fools_mate \<le> length b),
      result = (\<lambda>b. if length fools_mate \<le> length b then ''0-1'' else ''*''),
      fen = (\<lambda>b. concat (map (\<lambda>m. m @ '' '') b))\<rparr>"

text \<open>
  States to run the handlers on: \<open>a\<close> and \<open>b\<close> connect and join, so they are paired
  with \<open>a\<close> playing white; then three moves of the line are played; then the fourth,
  which ends the game.
\<close>

definition paired :: "string list server" where
  "paired = run line_rules init [Connect ''a'', Connect ''b'', Join ''a'', Join ''b'']"

definition before_mate :: "string list server" where
  "before_mate = run line_rules paired
     [Move ''a'' [(''from'', ''f2''), (''to'', ''f3'')],
      Move ''b'' [(''from'', ''e7''), (''to'', ''e5'')],
      Move ''a'' [(''from'', ''g2''), (''to'', ''g4'')]]"

definition mated :: "string list server" where
  "mated = step line_rules before_mate (Move ''b'' [(''from'', ''d8''), (''to'', ''h4'')])"

section \<open>Pairing\<close>

text \<open>A room name is longer than either handle in it, so it is neither of them.\<close>

lemma room_name_neq_fst: "room_name p1 p2 \<noteq> p1"
proof
  assume "room_name p1 p2 = p1"
  then have "length (room_name p1 p2) = length p1" by simp
  then show False by (simp add: room_name_def)
qed

lemma room_name_neq_snd: "room_name p1 p2 \<noteq> p2"
proof
  assume "room_name p1 p2 = p2"
  then have "length (room_name p1 p2) = length p2" by simp
  then show False by (simp add: room_name_def)
qed

text \<open>The state a pairing \<^verbatim>\<open>join\<close> returns, written out.\<close>

lemma join_pairs:
  assumes q: "waiting s @ [sid] = p1 # p2 # rest"
    and c1: "sessions s p1 \<noteq> None" and c2: "sessions s p2 \<noteq> None"
  shows "join R s sid = Done
     (s\<lparr>waiting := rest,
        games := AList.update (room_name p1 p2) (new_board R) (games s),
        sessions := (sessions s)
          (p1 \<mapsto> [''room'' \<mapsto> room_name p1 p2, ''color'' \<mapsto> ''white''],
           p2 \<mapsto> [''room'' \<mapsto> room_name p1 p2, ''color'' \<mapsto> ''black'']),
        members := (members s)
          (room_name p1 p2 := insert p2 (insert p1 (members s (room_name p1 p2)))),
        outbox := outbox s @
          [Emit ''start'' [(''fen'', fen R (new_board R)), (''your_color'', ''white'')]
             p1 (members s p1),
           Emit ''start'' [(''fen'', fen R (new_board R)), (''your_color'', ''black'')]
             p2 (members s p2)]\<rparr>)"
  using q c1 c2 room_name_neq_fst[of p1 p2] room_name_neq_snd[of p1 p2]
  by (auto simp: join_def Let_def emit_def enter_room_def)

text \<open>What \<^verbatim>\<open>join\<close> does to the set of connected handles (nothing) and to the queue.\<close>

lemma join_sessions_dom:
  "(sessions (state_of (join R s sid)) h = None) = (sessions s h = None)"
  by (auto simp: join_def Let_def emit_def enter_room_def
           split: list.splits option.splits)

lemma join_waiting:
  "waiting (state_of (join R s sid)) =
     (case waiting s @ [sid] of p1 # p2 # rest \<Rightarrow> rest | q \<Rightarrow> q)"
  by (simp add: join_def Let_def emit_def enter_room_def split: list.splits option.splits)

lemma join_waiting_subset:
  "set (waiting (state_of (join R s sid))) \<subseteq> insert sid (set (waiting s))"
proof -
  have "set (case q of p1 # p2 # rest \<Rightarrow> rest | q' \<Rightarrow> q') \<subseteq> set q" for q :: "sid list"
  proof (cases q)
    case Nil
    then show ?thesis by simp
  next
    case (Cons a as)
    then show ?thesis by (cases as) auto
  qed
  from this[of "waiting s @ [sid]"] show ?thesis
    by (simp add: join_waiting)
qed

lemma joins_keep_queue_connected:
  assumes "\<forall>h\<in>set (waiting s @ js). sessions s h \<noteq> None"
  shows "\<forall>h\<in>set (waiting (run R s (map Join js))). sessions (run R s (map Join js)) h \<noteq> None"
  using assms
proof (induction js arbitrary: s)
  case Nil
  then show ?case by (simp add: run_def)
next
  case (Cons j js)
  let ?t = "state_of (join R s j)"
  have "\<forall>h\<in>set (waiting ?t @ js). sessions ?t h \<noteq> None"
  proof
    fix h assume "h \<in> set (waiting ?t @ js)"
    then have "h \<in> set (waiting s @ j # js)"
      using join_waiting_subset[of R s j] by auto
    with Cons.prems have "sessions s h \<noteq> None" by blast
    then show "sessions ?t h \<noteq> None" by (simp add: join_sessions_dom)
  qed
  from Cons.IH[OF this] show ?case by (simp add: run_def step_def)
qed

lemma joins_sessions_dom:
  "(sessions (run R s (map Join js)) h = None) = (sessions s h = None)"
proof (induction js arbitrary: s)
  case Nil
  then show ?case by (simp add: run_def)
next
  case (Cons j js)
  have "(sessions (run R (state_of (join R s j)) (map Join js)) h = None) = (sessions s h = None)"
    using Cons.IH[of "state_of (join R s j)"] by (simp add: join_sessions_dom)
  then show ?case by (simp add: run_def step_def)
qed

text \<open>
  What a pairing \<^verbatim>\<open>join\<close> does after any sequence of joins. Start from any state whose
  queued handles are connected and let connected handles
  send any sequence \<open>js\<close> of \<^verbatim>\<open>join\<close> events. If the next \<^verbatim>\<open>join\<close> brings the queue to
  two or more handles, \<open>p1\<close> and \<open>p2\<close> being its two oldest entries, then the handler
  returns and: the queue has lost exactly these two entries, from the front; a board in
  the initial position is stored under the room of \<open>p1\<close> and \<open>p2\<close>; the session of \<open>p1\<close>
  was saved with colour white and then that of \<open>p2\<close> with colour black; both handles are
  members of the room; and exactly two messages were emitted, a \<^verbatim>\<open>start\<close> addressed to
  \<open>p1\<close> alone carrying the board and white, then a \<^verbatim>\<open>start\<close> addressed to \<open>p2\<close> alone
  carrying the board and black. (The two saves are made in this order; when the two
  entries are different handles, white is what the session of \<open>p1\<close> holds afterwards.)
\<close>

theorem join_pairs_two_oldest:
  assumes conn: "list_all (\<lambda>h. sessions s0 h \<noteq> None) (waiting s0 @ js @ [sid])"
    and s: "s = run R s0 (map Join js)"
    and q: "waiting s @ [sid] = p1 # p2 # rest"
  shows "\<exists>s'. join R s sid = Done s'
           \<and> waiting s' = rest
           \<and> length (waiting s') + 2 = length (waiting s @ [sid])
           \<and> map_of (games s') (room_name p1 p2) = Some (new_board R)
           \<and> sessions s' = (sessions s)
                (p1 \<mapsto> [''room'' \<mapsto> room_name p1 p2, ''color'' \<mapsto> ''white''],
                 p2 \<mapsto> [''room'' \<mapsto> room_name p1 p2, ''color'' \<mapsto> ''black''])
           \<and> (p1 \<noteq> p2 \<longrightarrow>
                room_of s' p1 = Some (room_name p1 p2) \<and> color_of s' p1 = Some ''white'')
           \<and> room_of s' p2 = Some (room_name p1 p2) \<and> color_of s' p2 = Some ''black''
           \<and> {p1, p2} \<subseteq> members s' (room_name p1 p2)
           \<and> outbox s' = outbox s @
                [Emit ''start'' [(''fen'', fen R (new_board R)), (''your_color'', ''white'')]
                   p1 (members s p1),
                 Emit ''start'' [(''fen'', fen R (new_board R)), (''your_color'', ''black'')]
                   p2 (members s p2)]"
proof -
  have conn': "\<forall>h\<in>set (waiting s0 @ js @ [sid]). sessions s0 h \<noteq> None"
    using conn by (simp add: list_all_iff)
  have queued: "\<forall>h\<in>set (waiting s). sessions s h \<noteq> None"
    using joins_keep_queue_connected[of s0 js R] conn' s by simp
  have "sessions s0 sid \<noteq> None" using conn' by simp
  then have "sessions s sid \<noteq> None" by (simp add: s joins_sessions_dom)
  with queued have "\<forall>h\<in>set (waiting s @ [sid]). sessions s h \<noteq> None" by simp
  with q have c: "sessions s p1 \<noteq> None" "sessions s p2 \<noteq> None" by simp_all
  have len: "length rest + 2 = length (waiting s @ [sid])"
    unfolding q by simp
  show ?thesis
    unfolding join_pairs[OF q c] using len
    by (simp add: update_conv' room_of_def color_of_def)
qed

theorem join_pairs_two_oldest_witness:
  "list_all (\<lambda>h. sessions (run line_rules init [Connect ''a'', Connect ''b'']) h \<noteq> None)
     (waiting (run line_rules init [Connect ''a'', Connect ''b'']) @ [''a''] @ [''b''])
   \<and> waiting (run line_rules init [Connect ''a'', Connect ''b'', Join ''a'']) @ [''b'']
       = [''a'', ''b'']
   \<and> (\<exists>s'. join line_rules (run line_rules init [Connect ''a'', Connect ''b'', Join ''a'']) ''b''
              = Done s'
         \<and> waiting s' = []
         \<and> map_of (games s') ''room_a_b'' = Some []
         \<and> room_of s' ''a'' = Some ''room_a_b'' \<and> color_of s' ''a'' = Some ''white''
         \<and> room_of s' ''b'' = Some ''room_a_b'' \<and> color_of s' ''b'' = Some ''black''
         \<and> {''a'', ''b''} \<subseteq> members s' ''room_a_b''
         \<and> outbox s' =
             [Emit ''start'' [(''fen'', []), (''your_color'', ''white'')] ''a'' {''a''},
              Emit ''start'' [(''fen'', []), (''your_color'', ''black'')] ''b'' {''b''}])"
proof -
  let ?c = "run line_rules init [Connect ''a'', Connect ''b'']"
  let ?t = "run line_rules init [Connect ''a'', Connect ''b'', Join ''a'']"
  have s: "?t = run line_rules ?c (map Join [''a''])"
    by (simp add: run_def)
  have h1: "list_all (\<lambda>h. sessions ?c h \<noteq> None) (waiting ?c @ [''a''] @ [''b''])"
    by code_simp
  have h2: "waiting ?t @ [''b''] = [''a'', ''b'']"
    by code_simp
  have m: "members ?t ''a'' = {''a''}" "members ?t ''b'' = {''b''}" "outbox ?t = []"
    by code_simp+
  have r: "room_name ''a'' ''b'' = ''room_a_b''" "new_board line_rules = []"
    "fen line_rules [] = []"
    by (simp_all add: room_name_def line_rules_def)
  from join_pairs_two_oldest[OF h1 s h2]
  have "\<exists>s'. join line_rules ?t ''b'' = Done s'
         \<and> waiting s' = []
         \<and> map_of (games s') ''room_a_b'' = Some []
         \<and> room_of s' ''a'' = Some ''room_a_b'' \<and> color_of s' ''a'' = Some ''white''
         \<and> room_of s' ''b'' = Some ''room_a_b'' \<and> color_of s' ''b'' = Some ''black''
         \<and> {''a'', ''b''} \<subseteq> members s' ''room_a_b''
         \<and> outbox s' =
             [Emit ''start'' [(''fen'', []), (''your_color'', ''white'')] ''a'' {''a''},
              Emit ''start'' [(''fen'', []), (''your_color'', ''black'')] ''b'' {''b''}]"
    by (simp add: m r) blast
  with h1 h2 show ?thesis by blast
qed

text \<open>
  C1 asks, for every sequence of join events, that the first-dequeued handle be
  assigned white and the second black. The code does not meet this when the two oldest
  entries of the queue are one handle, which \<^verbatim>\<open>join\<close> lets happen because it appends
  without a check (C8): the session is saved with white and then, for the same handle,
  with black, so the first-dequeued handle ends up black. A connected handle \<open>a\<close> that
  joins twice brings the queue to \<open>[a, a]\<close> and is recorded as black. The same happens
  without any handle joining twice in a row: \<open>a\<close> quits its game with \<open>b\<close>, which puts
  \<open>b\<close> back in the queue, and \<open>b\<close>, told that its opponent left, joins as the client
  does; \<open>b\<close> is then paired with itself under \<^verbatim>\<open>room_b_b\<close>, is sent \<^verbatim>\<open>start\<close> as white
  and as black, and is recorded as black.
\<close>

theorem join_same_handle_first_dequeued_is_black:
  "waiting (run line_rules init [Connect ''a'', Join ''a'']) @ [''a''] = [''a'', ''a'']
   \<and> raised (handle line_rules (run line_rules init [Connect ''a'', Join ''a'']) (Join ''a''))
       = None
   \<and> waiting (run line_rules init [Connect ''a'', Join ''a'', Join ''a'']) = []
   \<and> map_of (games (run line_rules init [Connect ''a'', Join ''a'', Join ''a''])) ''room_a_a''
       = Some []
   \<and> color_of (run line_rules init [Connect ''a'', Join ''a'', Join ''a'']) ''a''
       = Some ''black''
   \<and> waiting (run line_rules paired [Quit ''a'']) @ [''b''] = [''b'', ''b'']
   \<and> room_of (run line_rules paired [Quit ''a'', Join ''b'']) ''b'' = Some ''room_b_b''
   \<and> color_of (run line_rules paired [Quit ''a'', Join ''b'']) ''b'' = Some ''black''
   \<and> outbox (run line_rules paired [Quit ''a'', Join ''b''])
       = outbox (run line_rules paired [Quit ''a''])
           @ [Emit ''start'' [(''fen'', []), (''your_color'', ''white'')] ''b'' {''b''},
              Emit ''start'' [(''fen'', []), (''your_color'', ''black'')] ''b'' {''b''}]"
  by code_simp

section \<open>Moves\<close>

text \<open>
  C2. A move request from a handle whose session names a room with a stored game, with a
  payload that has both squares and parses to a move \<open>mv\<close>. If the rules engine finds
  \<open>mv\<close> legal on the stored board, the handler returns, the stored board is the
  engine's successor board, and the messages emitted are one \<^verbatim>\<open>move\<close> addressed to the
  room, carrying the move and that successor board, followed, exactly when the successor
  is terminal, by one \<^verbatim>\<open>game_over\<close> addressed to the room carrying the result; nothing
  else changes. If \<open>mv\<close> is illegal, the handler returns, the only change to the state
  is one \<^verbatim>\<open>invalid\<close> message addressed to the requester's own handle, and the stored
  games are what they were.
\<close>

theorem move_legal_or_illegal:
  assumes att: "room_of s sid = Some room"
    and game: "map_of (games s) room = Some board"
    and sq: "data ''from'' = Some f" "data ''to'' = Some t"
    and parse: "from_uci R (uci_of data f t) = Some mv"
  shows "(if legal_moves R board mv
          then move R s sid data = Done
                 (s\<lparr>games := AList.update room (push R board mv) (games s),
                    outbox := outbox s @
                      Emit ''move''
                        [(''uci'', uci_of data f t), (''fen'', fen R (push R board mv))]
                        room (members s room)
                      # (if is_game_over R (push R board mv)
                         then [Emit ''game_over'' [(''result'', result R (push R board mv))]
                                 room (members s room)]
                         else [])\<rparr>)
               \<and> map_of (games (state_of (move R s sid data))) room = Some (push R board mv)
          else move R s sid data = Done
                 (s\<lparr>outbox := outbox s @
                      [Emit ''invalid'' [(''uci'', uci_of data f t)] sid (members s sid)]\<rparr>)
               \<and> games (state_of (move R s sid data)) = games s)"
proof -
  from att obtain d where "sessions s sid = Some d" "d ''room'' = Some room"
    by (auto simp: room_of_def split: option.splits)
  with game sq parse show ?thesis
    by (simp add: move_def Let_def emit_def update_conv')
qed

theorem move_legal_or_illegal_witness:
  "room_of before_mate ''b'' = Some ''room_a_b''
   \<and> map_of (games before_mate) ''room_a_b'' = Some [''f2f3'', ''e7e5'', ''g2g4'']
   \<and> from_uci line_rules ''d8h4'' = Some ''d8h4''
   \<and> legal_moves line_rules [''f2f3'', ''e7e5'', ''g2g4''] ''d8h4''
   \<and> outbox (state_of (move line_rules before_mate ''b''
                (map_of [(''from'', ''d8''), (''to'', ''h4'')])))
       = outbox before_mate @
           [Emit ''move'' [(''uci'', ''d8h4''), (''fen'', ''f2f3 e7e5 g2g4 d8h4 '')]
              ''room_a_b'' {''a'', ''b''},
            Emit ''game_over'' [(''result'', ''0-1'')] ''room_a_b'' {''a'', ''b''}]
   \<and> map_of (games (state_of (move line_rules before_mate ''b''
                (map_of [(''from'', ''d8''), (''to'', ''h4'')])))) ''room_a_b''
       = Some [''f2f3'', ''e7e5'', ''g2g4'', ''d8h4'']"
proof -
  let ?d = "map_of [(''from'', ''d8''), (''to'', ''h4'')]"
  have u: "uci_of ?d ''d8'' ''h4'' = ''d8h4''"
    by (simp add: uci_of_def)
  have h1: "room_of before_mate ''b'' = Some ''room_a_b''"
    by code_simp
  have h2: "map_of (games before_mate) ''room_a_b'' = Some [''f2f3'', ''e7e5'', ''g2g4'']"
    by code_simp
  have h3: "?d ''from'' = Some ''d8''" "?d ''to'' = Some ''h4''"
    by simp_all
  have h4: "from_uci line_rules (uci_of ?d ''d8'' ''h4'') = Some ''d8h4''"
    unfolding u by (simp add: line_rules_def)
  have e: "legal_moves line_rules [''f2f3'', ''e7e5'', ''g2g4''] ''d8h4''"
    "push line_rules [''f2f3'', ''e7e5'', ''g2g4''] ''d8h4'' = [''f2f3'', ''e7e5'', ''g2g4'', ''d8h4'']"
    "is_game_over line_rules [''f2f3'', ''e7e5'', ''g2g4'', ''d8h4'']"
    "result line_rules [''f2f3'', ''e7e5'', ''g2g4'', ''d8h4''] = ''0-1''"
    "fen line_rules [''f2f3'', ''e7e5'', ''g2g4'', ''d8h4''] = ''f2f3 e7e5 g2g4 d8h4 ''"
    by (simp_all add: line_rules_def fools_mate_def)
  have m: "members before_mate ''room_a_b'' = {''a'', ''b''}"
    by code_simp
  from move_legal_or_illegal[OF h1 h2 h3 h4] h1 h2 h4 show ?thesis
    by (simp add: e m uci_of_def update_conv')
qed

text \<open>
  C10. A move request from a handle whose session names a room with a stored game, with
  a payload that lacks \<^verbatim>\<open>from\<close> or \<^verbatim>\<open>to\<close>, or whose squares and promotion do not
  parse as a move: the handler raises (\<^verbatim>\<open>KeyError\<close> for a missing key, \<^verbatim>\<open>ValueError\<close>
  for a string that does not parse) and the state at the raise is the state before the
  request, so no board was changed and no message was emitted.
\<close>

theorem move_malformed_raises:
  assumes att: "room_of s sid = Some room"
    and game: "map_of (games s) room = Some board"
    and bad: "data ''from'' = None \<or> data ''to'' = None
              \<or> (\<exists>f t. data ''from'' = Some f \<and> data ''to'' = Some t
                        \<and> from_uci R (uci_of data f t) = None)"
  shows "move R s sid data =
           Raised (if data ''from'' = None \<or> data ''to'' = None then KeyError else ValueError) s"
proof -
  from att obtain d where "sessions s sid = Some d" "d ''room'' = Some room"
    by (auto simp: room_of_def split: option.splits)
  with game bad show ?thesis
    by (auto simp: move_def Let_def split: option.splits)
qed

theorem move_malformed_raises_witness:
  "room_of paired ''a'' = Some ''room_a_b''
   \<and> map_of (games paired) ''room_a_b'' = Some []
   \<and> map_of [(''from'', ''e2'')] ''to'' = None
   \<and> move line_rules paired ''a'' (map_of [(''from'', ''e2'')]) = Raised KeyError paired
   \<and> from_uci line_rules (uci_of (map_of [(''from'', ''e2''), (''to'', ''e'')]) ''e2'' ''e'') = None
   \<and> move line_rules paired ''a'' (map_of [(''from'', ''e2''), (''to'', ''e'')])
       = Raised ValueError paired"
proof -
  have h1: "room_of paired ''a'' = Some ''room_a_b''"
    by code_simp
  have h2: "map_of (games paired) ''room_a_b'' = Some []"
    by code_simp
  have k: "map_of [(''from'', ''e2'')] ''to'' = None"
    by simp
  have v: "from_uci line_rules (uci_of (map_of [(''from'', ''e2''), (''to'', ''e'')]) ''e2'' ''e'') = None"
    by (simp add: line_rules_def uci_of_def)
  have "move line_rules paired ''a'' (map_of [(''from'', ''e2'')]) = Raised KeyError paired"
    using move_malformed_raises[OF h1 h2, of "map_of [(''from'', ''e2'')]" line_rules] k
    by simp
  moreover
  have "move line_rules paired ''a'' (map_of [(''from'', ''e2''), (''to'', ''e'')])
          = Raised ValueError paired"
    using move_malformed_raises[OF h1 h2, of "map_of [(''from'', ''e2''), (''to'', ''e'')]" line_rules] v
    by simp
  ultimately show ?thesis using h1 h2 k v by blast
qed

text \<open>
  C7, as the code has it. A move request from a connected handle whose session names a
  room under which no game is stored is a silent no-op: the handler returns without
  raising and the state, the log of emitted messages included, is unchanged.
\<close>

theorem move_without_game_is_noop:
  assumes "room_of s sid = Some room"
    and "map_of (games s) room = None"
  shows "move R s sid data = Done s"
proof -
  from assms(1) obtain d where "sessions s sid = Some d" "d ''room'' = Some room"
    by (auto simp: room_of_def split: option.splits)
  with assms(2) show ?thesis by (simp add: move_def)
qed

theorem move_without_game_is_noop_witness:
  "room_of (step line_rules paired (Disconnect ''a'')) ''b'' = Some ''room_a_b''
   \<and> map_of (games (step line_rules paired (Disconnect ''a''))) ''room_a_b'' = None
   \<and> move line_rules (step line_rules paired (Disconnect ''a'')) ''b''
        (map_of [(''from'', ''e7''), (''to'', ''e5'')])
       = Done (step line_rules paired (Disconnect ''a''))"
proof -
  have h1: "room_of (step line_rules paired (Disconnect ''a'')) ''b'' = Some ''room_a_b''"
    by code_simp
  have h2: "map_of (games (step line_rules paired (Disconnect ''a''))) ''room_a_b'' = None"
    by code_simp
  from move_without_game_is_noop[OF h1 h2] h1 h2 show ?thesis by blast
qed

text \<open>
  C7 as stated fails twice. A connected handle that was never paired has no \<^verbatim>\<open>room\<close>
  key in its session, and \<^verbatim>\<open>session["room"]\<close> raises \<^verbatim>\<open>KeyError\<close>. And the server
  keeps no phase: after the mate the game is still stored, the requester's move goes to
  the rules engine like any other, and the requester is sent \<^verbatim>\<open>invalid\<close>.
\<close>

theorem move_not_silent_counterexample:
  "raised (move line_rules (run line_rules init [Connect ''a'']) ''a''
             (map_of [(''from'', ''f2''), (''to'', ''f3'')])) = Some KeyError
   \<and> map_option (is_game_over line_rules) (map_of (games mated) ''room_a_b'') = Some True
   \<and> room_of mated ''a'' = Some ''room_a_b''
   \<and> outbox (state_of (move line_rules mated ''a'' (map_of [(''from'', ''f3''), (''to'', ''f4'')])))
       = outbox mated @ [Emit ''invalid'' [(''uci'', ''f3f4'')] ''a'' {''a''}]"
  by code_simp

section \<open>The queue\<close>

text \<open>
  \<^verbatim>\<open>join\<close> appends the handle whatever the queue holds. A connected handle that is
  alone in the queue and joins again is paired with itself.
\<close>

lemma join_pairs_handle_with_itself:
  assumes "waiting s = [sid]" and "sessions s sid \<noteq> None"
  shows "\<exists>s'. join R s sid = Done s' \<and> waiting s' = []
           \<and> map_of (games s') (room_name sid sid) = Some (new_board R)
           \<and> color_of s' sid = Some ''black''"
proof -
  have q: "waiting s @ [sid] = sid # sid # []" using assms(1) by simp
  show ?thesis
    unfolding join_pairs[OF q assms(2) assms(2)]
    by (simp add: update_conv' color_of_def)
qed

text \<open>
  C8 asks that a \<^verbatim>\<open>join\<close> from a handle that is already queued or already attached be
  a no-op, so that a handle is never paired with itself. The code does not do this
  (\<^verbatim>\<open>quit\<close> guards its own append with \<^verbatim>\<open>not in waiting\<close>; \<^verbatim>\<open>join\<close> has no guard).
  One connected handle \<open>a\<close> that joins twice is queued, then paired with itself: a game
  is stored under \<^verbatim>\<open>room_a_a\<close> and \<open>a\<close> is sent \<^verbatim>\<open>start\<close> twice, as white and as black.
  And a \<^verbatim>\<open>join\<close> from \<open>a\<close> while it is attached to its game with \<open>b\<close> puts \<open>a\<close> in the
  queue.
\<close>

theorem join_twice_pairs_handle_with_itself:
  "waiting (run line_rules init [Connect ''a'', Join ''a'']) = [''a'']
   \<and> waiting (run line_rules init [Connect ''a'', Join ''a'', Join ''a'']) = []
   \<and> games (run line_rules init [Connect ''a'', Join ''a'', Join ''a'']) = [(''room_a_a'', [])]
   \<and> room_of (run line_rules init [Connect ''a'', Join ''a'', Join ''a'']) ''a''
       = Some ''room_a_a''
   \<and> outbox (run line_rules init [Connect ''a'', Join ''a'', Join ''a''])
       = [Emit ''start'' [(''fen'', []), (''your_color'', ''white'')] ''a'' {''a''},
          Emit ''start'' [(''fen'', []), (''your_color'', ''black'')] ''a'' {''a''}]
   \<and> room_of paired ''a'' = Some ''room_a_b''
   \<and> waiting paired = []
   \<and> waiting (step line_rules paired (Join ''a'')) = [''a'']"
  by code_simp

section \<open>Quit and disconnect\<close>

text \<open>
  Splitting a room name gives back the two handles when neither contains an underscore.
\<close>

lemma split_without_separator: "c \<notin> set xs \<Longrightarrow> split c xs = [xs]"
  by (induction xs) auto

lemma split_at_separator: "c \<notin> set xs \<Longrightarrow> split c (xs @ c # ys) = xs # split c ys"
  by (induction xs) auto

lemma split_room_name:
  assumes "CHR ''_'' \<notin> set p1" and "CHR ''_'' \<notin> set p2"
  shows "split CHR ''_'' (room_name p1 p2) = [''room'', p1, p2]"
proof -
  have "room_name p1 p2 = ''room'' @ CHR ''_'' # (p1 @ CHR ''_'' # p2)"
    by (simp add: room_name_def)
  then have "split CHR ''_'' (room_name p1 p2)
      = ''room'' # split CHR ''_'' (p1 @ CHR ''_'' # p2)"
    using split_at_separator[of "CHR ''_''" "''room''" "p1 @ CHR ''_'' # p2"] by simp
  also have "split CHR ''_'' (p1 @ CHR ''_'' # p2) = p1 # split CHR ''_'' p2"
    using assms(1) by (rule split_at_separator)
  also have "split CHR ''_'' p2 = [p2]"
    using assms(2) by (rule split_without_separator)
  finally show ?thesis .
qed

lemma room_name_not_empty: "room_name p1 p2 \<noteq> []"
  by (simp add: room_name_def)

text \<open>
  For such handles \<^verbatim>\<open>quit\<close> does what its comments say: with \<open>sid\<close> attached to the
  room of \<open>p1\<close> and \<open>p2\<close> and \<open>opp\<close> the other one, connected, it broadcasts
  \<^verbatim>\<open>opponent_left\<close> to the room, deletes the game and the pending replay requests,
  deletes the \<^verbatim>\<open>room\<close> key of the opponent's session, appends the opponent to the queue
  unless it is there already, and takes the quitting handle out of the room. The
  quitting handle is not enqueued, and its own session is not touched.
\<close>

lemma quit_tears_down:
  assumes att: "room_of s sid = Some (room_name p1 p2)"
    and who: "sid = p1 \<and> opp = p2 \<or> sid = p2 \<and> opp = p1 \<and> p1 \<noteq> p2"
    and plain: "CHR ''_'' \<notin> set p1" "CHR ''_'' \<notin> set p2"
    and conn: "sessions s opp = Some d"
  shows "quit s sid = Done
     (s\<lparr>outbox := outbox s @
          [Emit ''opponent_left'' [] (room_name p1 p2) (members s (room_name p1 p2))],
        games := AList.delete (room_name p1 p2) (games s),
        replay_requests := (replay_requests s)(room_name p1 p2 := None),
        sessions := (sessions s)(opp \<mapsto> d(''room'' := None)),
        waiting := (if opp \<in> set (waiting s) then waiting s else waiting s @ [opp]),
        members := (members s)
          (room_name p1 p2 := members s (room_name p1 p2) - {sid})\<rparr>)"
proof -
  from att obtain ses where ses: "sessions s sid = Some ses" "ses ''room'' = Some (room_name p1 p2)"
    by (auto simp: room_of_def split: option.splits)
  have opp: "(if sid = p1 then p2 else p1) = opp"
    using who by auto
  show ?thesis
    using ses conn opp
    by (simp add: quit_def split_room_name[OF plain] room_name_not_empty Let_def
                  emit_def leave_room_def)
qed

text \<open>
  C4 asks that \<^verbatim>\<open>quit\<close> identify the opponent, clear its attachment and re-enqueue it,
  for every handle. The code reads the opponent off the room name, as the second or
  third piece between underscores, and a handle may contain an underscore. With
  \<^verbatim>\<open>x_y\<close> and \<open>z\<close> paired, the room name splits into four pieces and a \<^verbatim>\<open>quit\<close> from
  \<open>z\<close> takes \<open>x\<close> for its opponent: no such handle is connected, the handler raises after
  the broadcast, nobody is enqueued and \<^verbatim>\<open>x_y\<close> stays attached to the destroyed room.
  Were a third handle \<open>x\<close> connected, it is \<open>x\<close> that would be put in the queue.
\<close>

theorem quit_misreads_opponent:
  "split CHR ''_'' (room_name ''x_y'' ''z'') = [''room'', ''x'', ''y'', ''z'']
   \<and> room_of (run line_rules init [Connect ''x_y'', Connect ''z'', Join ''x_y'', Join ''z''])
        ''z'' = Some ''room_x_y_z''
   \<and> raised (handle line_rules
        (run line_rules init [Connect ''x_y'', Connect ''z'', Join ''x_y'', Join ''z''])
        (Quit ''z'')) = Some KeyError
   \<and> waiting (run line_rules init
        [Connect ''x_y'', Connect ''z'', Join ''x_y'', Join ''z'', Quit ''z'']) = []
   \<and> room_of (run line_rules init
        [Connect ''x_y'', Connect ''z'', Join ''x_y'', Join ''z'', Quit ''z''])
        ''x_y'' = Some ''room_x_y_z''
   \<and> waiting (run line_rules init
        [Connect ''x'', Connect ''x_y'', Connect ''z'', Join ''x_y'', Join ''z'', Quit ''z''])
       = [''x'']"
  by code_simp

text \<open>The \<^verbatim>\<open>disconnect\<close> handler reads no session and writes none.\<close>

lemma disconnect_loop_keeps_sessions:
  "sessions (state_of (disconnect_loop sid rooms s)) = sessions s"
  by (induction rooms) (auto simp: emit_def Let_def split: list.splits)

lemma disconnect_keeps_sessions:
  "sessions (state_of (disconnect s sid)) = sessions s"
  by (simp add: disconnect_def Let_def disconnect_loop_keeps_sessions)

text \<open>
  C5 asks that a disconnect of an attached handle clear the opponent's attachment. The
  code destroys the game and broadcasts \<^verbatim>\<open>opponent_left\<close>, but the opponent it computes
  is never used: after \<open>a\<close> disconnects, the session of \<open>b\<close> still names the destroyed
  room and its colour. (\<^verbatim>\<open>quit\<close> does delete the opponent's \<^verbatim>\<open>room\<close> key.)
\<close>

theorem disconnect_leaves_opponent_attached:
  "map_of (games (step line_rules paired (Disconnect ''a''))) ''room_a_b'' = None
   \<and> outbox (step line_rules paired (Disconnect ''a''))
       = outbox paired @ [Emit ''opponent_left'' [] ''room_a_b'' {''a'', ''b''}]
   \<and> waiting (step line_rules paired (Disconnect ''a'')) = []
   \<and> room_of (step line_rules paired (Disconnect ''a'')) ''b'' = Some ''room_a_b''
   \<and> color_of (step line_rules paired (Disconnect ''a'')) ''b'' = Some ''black''"
  by code_simp

text \<open>
  C6 asks that a second \<^verbatim>\<open>quit\<close> from the same handle, after the teardown, broadcast
  nothing and leave the state as it is. \<^verbatim>\<open>quit\<close> never deletes the \<^verbatim>\<open>room\<close> key of the
  quitting handle's own session, so the second \<^verbatim>\<open>quit\<close> passes the guard, does not
  raise, and emits \<^verbatim>\<open>opponent_left\<close> to the room once more, where \<open>b\<close> is still a
  member.
\<close>

theorem second_quit_broadcasts_again:
  "map_of (games (run line_rules paired [Quit ''a''])) ''room_a_b'' = None
   \<and> room_of (run line_rules paired [Quit ''a'']) ''a'' = Some ''room_a_b''
   \<and> raised (handle line_rules (run line_rules paired [Quit ''a'']) (Quit ''a'')) = None
   \<and> outbox (run line_rules paired [Quit ''a'', Quit ''a''])
       = outbox (run line_rules paired [Quit ''a''])
           @ [Emit ''opponent_left'' [] ''room_a_b'' {''b''}]"
  by code_simp

section \<open>Replay\<close>

text \<open>
  What \<^verbatim>\<open>replay\<close> does with the first request for a room, and with a request for a room
  that has one pending. The games are not consulted: a first request is recorded whether
  or not a game is stored under the room, and a second one, from another handle, stores
  a new board whether or not one was there.
\<close>

lemma fcard_one: "fcard {|x|} = 1"
  by (simp add: fcard.rep_eq)

lemma fcard_two: "fcard {|x, y|} = (if x = y then 1 else 2)"
  by (simp add: fcard.rep_eq)

lemma replay_first_request:
  assumes att: "room_of s sid = Some room" and "room \<noteq> []"
    and "replay_requests s room = None"
  shows "replay R s sid = Done (s\<lparr>replay_requests := (replay_requests s)(room \<mapsto> {|sid|})\<rparr>)"
proof -
  from att obtain ses where "sessions s sid = Some ses" "ses ''room'' = Some room"
    by (auto simp: room_of_def split: option.splits)
  with assms(2,3) show ?thesis
    by (simp add: replay_def Let_def fcard_one)
qed

lemma replay_second_request:
  assumes att: "room_of s sid = Some room" and "room \<noteq> []"
    and "replay_requests s room = Some {|other|}"
  shows "replay R s sid =
     (if sid = other then Done s
      else Done (s\<lparr>games := AList.update room (new_board R) (games s),
                   outbox := outbox s @
                     [Emit ''replay_start'' [(''fen'', fen R (new_board R))] room (members s room)],
                   replay_requests := (replay_requests s)(room := None)\<rparr>))"
proof -
  from att obtain ses where "sessions s sid = Some ses" "ses ''room'' = Some room"
    by (auto simp: room_of_def split: option.splits)
  moreover have "(replay_requests s)(room \<mapsto> {|other|}) = replay_requests s"
    using assms(3) by (rule map_upd_triv)
  ultimately show ?thesis
    using assms(2,3) by (simp add: replay_def Let_def emit_def fcard_one fcard_two)
qed

text \<open>
  C9 asks that a replay request from a handle whose session was torn down by the
  opponent's quit or disconnect change no state. \<^verbatim>\<open>replay\<close> looks at the session's room
  only, not at whether a game is stored under it (\<^verbatim>\<open>move\<close> does), and after a
  disconnect the survivor's session still names the room (C5): after \<open>b\<close> disconnects, a
  replay request from \<open>a\<close> creates a pending request set for the destroyed room.
\<close>

theorem replay_after_teardown_is_recorded:
  "map_of (games (step line_rules paired (Disconnect ''b''))) ''room_a_b'' = None
   \<and> replay_requests (step line_rules paired (Disconnect ''b'')) ''room_a_b'' = None
   \<and> raised (handle line_rules (step line_rules paired (Disconnect ''b'')) (Replay ''a'')) = None
   \<and> replay_requests (run line_rules paired [Disconnect ''b'', Replay ''a'']) ''room_a_b''
       = Some {|''a''|}
   \<and> map_of (games (run line_rules paired [Disconnect ''b'', Replay ''a''])) ''room_a_b'' = None"
  by code_simp

text \<open>
  C3 asks that a restart fire only when both participants asked for it since the
  session was created or last restarted. A request recorded for a destroyed room
  outlives it: \<open>a\<close> quits its game with \<open>b\<close> and then asks for a replay; \<open>a\<close> joins and
  is paired with the waiting \<open>b\<close>; \<open>b\<close> quits that game and joins again, which pairs \<open>a\<close>
  and \<open>b\<close> under the first room name, with a fresh board; \<open>a\<close> plays a move. Now one
  replay request, from \<open>b\<close> alone, restarts the game: the board is reset and
  \<^verbatim>\<open>replay_start\<close> is broadcast.
\<close>

theorem stale_replay_request_restarts_new_game:
  "map_of (games (run line_rules paired
       [Quit ''a'', Replay ''a'', Join ''a'', Quit ''b'', Join ''b'',
        Move ''a'' [(''from'', ''f2''), (''to'', ''f3'')]])) ''room_a_b'' = Some [''f2f3'']
   \<and> outbox (run line_rules paired
       [Quit ''a'', Replay ''a'', Join ''a'', Quit ''b'', Join ''b'',
        Move ''a'' [(''from'', ''f2''), (''to'', ''f3'')], Replay ''b''])
     = [Emit ''start'' [(''fen'', []), (''your_color'', ''white'')] ''a'' {''a''},
        Emit ''start'' [(''fen'', []), (''your_color'', ''black'')] ''b'' {''b''},
        Emit ''opponent_left'' [] ''room_a_b'' {''a'', ''b''},
        Emit ''start'' [(''fen'', []), (''your_color'', ''white'')] ''b'' {''b''},
        Emit ''start'' [(''fen'', []), (''your_color'', ''black'')] ''a'' {''a''},
        Emit ''opponent_left'' [] ''room_b_a'' {''a'', ''b''},
        Emit ''start'' [(''fen'', []), (''your_color'', ''white'')] ''a'' {''a''},
        Emit ''start'' [(''fen'', []), (''your_color'', ''black'')] ''b'' {''b''},
        Emit ''move'' [(''uci'', ''f2f3''), (''fen'', ''f2f3 '')] ''room_a_b'' {''a'', ''b''},
        Emit ''replay_start'' [(''fen'', [])] ''room_a_b'' {''a'', ''b''}]
   \<and> map_of (games (run line_rules paired
       [Quit ''a'', Replay ''a'', Join ''a'', Quit ''b'', Join ''b'',
        Move ''a'' [(''from'', ''f2''), (''to'', ''f3'')], Replay ''b''])) ''room_a_b'' = Some []"
  by code_simp

end
